theory Spec2Isabelle
  imports Complex_Main "HOL-Library.Word"
begin

section \<open>Values, errors and the helper modules that are not part of index.js\<close>

text \<open>
  The primitive JavaScript values that reach \<^verbatim>\<open>src/index.js\<close> through the constructor's
  options and through the fields of a decoded payload. A number is kept as the rational
  its literal denotes (the file does no arithmetic on them; \<^verbatim>\<open>NaN\<close> is not a value of the
  model), so that the strict comparison \<^verbatim>\<open>===\<close> of two such values is equality. Strings
  are lists of code units; \<^verbatim>\<open>.length\<close> is \<^const>\<open>length\<close>.
\<close>

datatype jsval = JUndefined | JNull | JBool bool | JNum rat | JStr string

text \<open>
  Every \<^verbatim>\<open>throw\<close> and \<^verbatim>\<open>reject\<close> of the file, one constructor each:
  \<^item> \<open>IdIpMissing\<close>: \<^verbatim>\<open>TypeError('ID and IP are missing from device.')\<close>, line 42;
  \<^item> \<open>KeyIncorrect\<close>: \<^verbatim>\<open>TypeError('Key is missing or incorrect.')\<close>, line 47;
  \<^item> \<open>NoConnection\<close>: \<^verbatim>\<open>Error('No connection has been made to the device.')\<close>, line 221;
  \<^item> \<open>FindTimedOut\<close>: \<^verbatim>\<open>Error('find() timed out. ...')\<close>, line 585;
  \<^item> \<open>JsTypeError\<close>: the runtime's TypeError for calling \<^verbatim>\<open>undefined\<close> or reading a
    property of \<^verbatim>\<open>undefined\<close>;
  \<^item> \<open>HelperError n\<close>: whatever \<^verbatim>\<open>lib/message-parser\<close> or \<^verbatim>\<open>lib/cipher\<close> throws;
  \<^item> \<open>SocketError n\<close>: the argument of the UDP socket's \<^verbatim>\<open>error\<close> event.
\<close>

datatype error =
    IdIpMissing
  | KeyIncorrect
  | NoConnection
  | FindTimedOut
  | JsTypeError
  | HelperError nat
  | SocketError nat

text \<open>The two errors of the constructor are the spec's \<^verbatim>\<open>ConfigError\<close>.\<close>

fun isConfigError :: "error \<Rightarrow> bool" where
  "isConfigError IdIpMissing = True"
| "isConfigError KeyIncorrect = True"
| "isConfigError _ = False"

text \<open>What \<^verbatim>\<open>parser.encode\<close> is asked to encode: \<^verbatim>\<open>get\<close> (command 10, lines 94-106) and
  \<^verbatim>\<open>_sendPing\<close> (command 9, lines 249-252).\<close>

datatype request = GetRequest jsval jsval | PingRequest

text \<open>
  \<^verbatim>\<open>lib/message-parser\<close> and \<^verbatim>\<open>lib/cipher\<close> are required by index.js and are not among the
  sources. Their operations are parameters of the model: each either throws (\<open>Some e\<close>,
  \<open>Inl e\<close>) or returns. \<open>'b\<close> is the type of an encoded buffer.
\<close>

record 'b helpers =
  newMessageParser :: "jsval \<Rightarrow> jsval \<Rightarrow> error option"
  newCipher :: "jsval \<Rightarrow> jsval \<Rightarrow> error option"
  encode :: "request \<Rightarrow> error + 'b"
  writeSequenceN :: "'b \<Rightarrow> nat \<Rightarrow> error + 'b"

section \<open>The device object\<close>

text \<open>\<^verbatim>\<open>this.device\<close> (line 37), and the options the constructor destructures (line 34);
  an option that is not passed is \<open>JUndefined\<close>.\<close>

record device =
  d_ip :: jsval
  d_port :: jsval
  d_id :: jsval
  d_gwID :: jsval
  d_key :: jsval
  d_productKey :: jsval
  d_version :: jsval

record options =
  o_ip :: jsval
  o_port :: jsval
  o_id :: jsval
  o_gwID :: jsval
  o_key :: jsval
  o_productKey :: jsval
  o_version :: jsval

text \<open>
  A decoded payload: either a document (its top-level primitive fields, and its \<^verbatim>\<open>dps\<close>
  object when it has one), or \<open>Raw\<close> bytes that did not decode to a document. Reading
  a named field of \<open>Raw\<close> bytes gives \<^verbatim>\<open>undefined\<close>.
\<close>

datatype payload =
    Raw string
  | Doc "(string \<times> jsval) list" "(string \<times> jsval) list option"

record packet =
  payload :: payload
  commandByte :: nat
  sequenceN :: nat

text \<open>
  What the object does to the outside, in the order it does it: a \<^verbatim>\<open>data\<close> event emitted
  (line 408), a registered resolver called with a payload (lines 412 and 417), a buffer
  written to the socket (line 232). A resolver is the closure \<^verbatim>\<open>data => resolve(data)\<close> of
  line 233; it is named by the number of the attempt that created it.
\<close>

datatype 'b effect =
    EmitData payload nat nat
  | CallResolver nat payload
  | SocketWrite 'b

text \<open>
  The object's fields. \<open>resolvers\<close> is the object \<^verbatim>\<open>this._resolvers\<close>: its keys are
  sequence numbers, and \<^verbatim>\<open>Object.keys\<close> lists integer keys in ascending order, so it is
  kept as an association list in ascending key order (the counter only grows, so this is
  also the order in which the keys were added). \<open>nextResolver\<close> numbers the closures;
  \<open>effects\<close> is the log of what was done. The counter is a JavaScript number and is
  never reduced modulo anything in this file; it is a natural number here.
\<close>

record 'b tuya =
  device :: device
  foundDevices :: "(jsval \<times> jsval) list"
  connected :: bool
  currentSequenceN :: nat
  resolvers :: "(nat \<times> nat) list"
  nextResolver :: nat
  effects :: "'b effect list"

text \<open>\<^verbatim>\<open>checkIfValidString\<close>, lines 461-463.\<close>

fun checkIfValidString :: "jsval \<Rightarrow> bool" where
  "checkIfValidString (JStr s) = (length s > 0)"
| "checkIfValidString _ = False"

text \<open>\<^verbatim>\<open>this.device.key.length !== 16\<close> (line 46), read only for a valid string.\<close>

fun keyLength :: "jsval \<Rightarrow> nat" where
  "keyLength (JStr s) = length s"
| "keyLength _ = 0"

text \<open>A default parameter value (line 34) stands in for \<^verbatim>\<open>undefined\<close> only.\<close>

definition orDefault :: "jsval \<Rightarrow> jsval \<Rightarrow> jsval" where
  "orDefault v d = (if v = JUndefined then d else v)"

definition makeDevice :: "options \<Rightarrow> device" where
  "makeDevice opts =
     \<lparr> d_ip = o_ip opts,
       d_port = orDefault (o_port opts) (JNum 6668),
       d_id = o_id opts,
       d_gwID = orDefault (o_gwID opts) (o_id opts),
       d_key = o_key opts,
       d_productKey = o_productKey opts,
       d_version = orDefault (o_version opts) (JNum (31 / 10)) \<rparr>"

text \<open>The constructor, lines 34-71.\<close>

definition tuyaDevice :: "'b helpers \<Rightarrow> options \<Rightarrow> error + 'b tuya" where
  "tuyaDevice H opts =
     (let dev = makeDevice opts in
      if \<not> (checkIfValidString (o_id opts) \<or> checkIfValidString (o_ip opts))
      then Inl IdIpMissing
      else if \<not> checkIfValidString (d_key dev) \<or> keyLength (d_key dev) \<noteq> 16
      then Inl KeyIncorrect
      else (case newMessageParser H (d_key dev) (d_version dev) of
              Some e \<Rightarrow> Inl e
            | None \<Rightarrow>
               (case newCipher H (o_key opts) (orDefault (o_version opts) (JNum (31 / 10))) of
                  Some e \<Rightarrow> Inl e
                | None \<Rightarrow>
                    Inr \<lparr> device = dev, foundDevices = [], connected = False,
                          currentSequenceN = 0, resolvers = [], nextResolver = 0,
                          effects = [] \<rparr>)))"

text \<open>The configurations that pass both checks of lines 40-48.\<close>

definition validConfig :: "options \<Rightarrow> bool" where
  "validConfig opts \<longleftrightarrow>
     (checkIfValidString (o_id opts) \<or> checkIfValidString (o_ip opts)) \<and>
     checkIfValidString (o_key opts) \<and> keyLength (o_key opts) = 16"

section \<open>The pending-request table\<close>

text \<open>\<^verbatim>\<open>this._resolvers[k]\<close>, \<^verbatim>\<open>this._resolvers[k] = v\<close>, \<^verbatim>\<open>delete this._resolvers[k]\<close> and
  \<^verbatim>\<open>Object.keys(this._resolvers)\<close>. Deleting a key that is absent changes nothing.\<close>

definition objGet :: "(nat \<times> 'v) list \<Rightarrow> nat \<Rightarrow> 'v option" where
  "objGet m k = map_of m k"

fun objSet :: "(nat \<times> 'v) list \<Rightarrow> nat \<Rightarrow> 'v \<Rightarrow> (nat \<times> 'v) list" where
  "objSet [] k v = [(k, v)]"
| "objSet ((k', v') # m) k v =
     (if k = k' then (k, v) # m
      else if k < k' then (k, v) # (k', v') # m
      else (k', v') # objSet m k v)"

definition objDelete :: "(nat \<times> 'v) list \<Rightarrow> nat \<Rightarrow> (nat \<times> 'v) list" where
  "objDelete m k = filter (\<lambda>e. fst e \<noteq> k) m"

definition objectKeys :: "(nat \<times> 'v) list \<Rightarrow> nat list" where
  "objectKeys m = map fst m"

section \<open>Sending: \<^verbatim>\<open>_send\<close>, lines 218-239\<close>

text \<open>
  One run of the function handed to \<^verbatim>\<open>pRetry\<close> (lines 226-237). The counter is
  incremented before \<^verbatim>\<open>writeSequenceN\<close> is called, so it stays incremented when that
  call throws; the \<^verbatim>\<open>catch\<close> then rejects the attempt's promise and \<^verbatim>\<open>buffer\<close> keeps its
  old value. Otherwise the stamped buffer is written and the resolver is stored under
  the counter's value; the attempt's promise is left pending. \<^verbatim>\<open>client.write\<close> is taken
  not to throw.
\<close>

datatype attempt = Registered nat | Threw error

definition attempt :: "'b helpers \<Rightarrow> 'b \<Rightarrow> 'b tuya \<Rightarrow> attempt \<times> 'b \<times> 'b tuya" where
  "attempt H buffer s =
     (let n = Suc (currentSequenceN s);
          s1 = s\<lparr>currentSequenceN := n\<rparr>
      in case writeSequenceN H buffer n of
           Inl e \<Rightarrow> (Threw e, buffer, s1)
         | Inr b \<Rightarrow>
             (Registered (nextResolver s1), b,
              s1\<lparr>effects := effects s1 @ [SocketWrite b],
                 resolvers := objSet (resolvers s1) n (nextResolver s1),
                 nextResolver := Suc (nextResolver s1)\<rparr>))"

text \<open>
  \<^verbatim>\<open>pRetry(f, {retries: 5})\<close> is the p-retry package, which is not part of the repository.
  It is modelled by its documented contract: \<^verbatim>\<open>f\<close> is called; when the promise \<^verbatim>\<open>f\<close>
  returned is rejected and retries are left, \<^verbatim>\<open>f\<close> is called again after a delay; when
  none is left the returned promise is rejected with that error; when the promise of
  \<^verbatim>\<open>f\<close> is fulfilled, the returned promise is fulfilled with the same value. While the
  promise of \<^verbatim>\<open>f\<close> is pending, p-retry does nothing: it sets no deadline of its own.
  (For some kinds of error p-retry gives up without retrying; nothing proved below
  depends on how many attempts follow a rejected one.)

  \<open>Awaiting r\<close>: the last attempt registered resolver \<open>r\<close> and its promise has not been
  rejected. \<open>Backoff k b e\<close>: the last attempt was rejected with \<open>e\<close>, \<open>k\<close> retries are
  left after the next one, and the delay before the next attempt runs; \<open>b\<close> is the value
  of the variable \<^verbatim>\<open>buffer\<close>. \<open>Exhausted e\<close>: the returned promise is rejected.
\<close>

datatype 'b sending = Awaiting nat | Backoff nat 'b error | Exhausted error

definition runAttempt :: "'b helpers \<Rightarrow> nat \<Rightarrow> 'b \<Rightarrow> 'b tuya \<Rightarrow> 'b sending \<times> 'b tuya" where
  "runAttempt H k buffer s =
     (case attempt H buffer s of
        (Threw e, b, s') \<Rightarrow> (if k = 0 then Exhausted e else Backoff (k - 1) b e, s')
      | (Registered r, b, s') \<Rightarrow> (Awaiting r, s'))"

definition send :: "'b helpers \<Rightarrow> 'b \<Rightarrow> 'b tuya \<Rightarrow> (error + 'b sending) \<times> 'b tuya" where
  "send H buffer s =
     (if \<not> connected s then (Inl NoConnection, s)
      else (case runAttempt H 5 buffer s of (st, s') \<Rightarrow> (Inr st, s')))"

text \<open>The retry delay of p-retry has passed: the next attempt runs.\<close>

definition retryFire :: "'b helpers \<Rightarrow> 'b sending \<Rightarrow> 'b tuya \<Rightarrow> 'b sending \<times> 'b tuya" where
  "retryFire H st s =
     (case st of Backoff k b e \<Rightarrow> runAttempt H k b s | _ \<Rightarrow> (st, s))"

text \<open>
  The state of a promise. A promise is settled once: the first call of a resolver
  fulfils the attempt's promise, a later call changes nothing.
\<close>

datatype 'a promise = Pending | Fulfilled 'a | Rejected error

fun firstCall :: "nat \<Rightarrow> 'b effect list \<Rightarrow> payload option" where
  "firstCall r [] = None"
| "firstCall r (CallResolver r' p # es) = (if r = r' then Some p else firstCall r es)"
| "firstCall r (_ # es) = firstCall r es"

text \<open>The state of the promise \<^verbatim>\<open>_send\<close> returned, read off the object's log.\<close>

definition sendOutcome :: "'b sending \<Rightarrow> 'b tuya \<Rightarrow> payload promise" where
  "sendOutcome st s =
     (case st of
        Awaiting r \<Rightarrow> (case firstCall r (effects s) of Some p \<Rightarrow> Fulfilled p | None \<Rightarrow> Pending)
      | Backoff k b e \<Rightarrow> Pending
      | Exhausted e \<Rightarrow> Rejected e)"

text \<open>\<^verbatim>\<open>_sendPing\<close>, lines 245-256: an \<^verbatim>\<open>async\<close> function, so what \<^verbatim>\<open>encode\<close> or \<^verbatim>\<open>_send\<close>
  throws rejects the promise it returns.\<close>

definition sendPing :: "'b helpers \<Rightarrow> 'b tuya \<Rightarrow> (error + 'b sending) \<times> 'b tuya" where
  "sendPing H s =
     (case encode H PingRequest of
        Inl e \<Rightarrow> (Inl e, s)
      | Inr buffer \<Rightarrow> send H buffer s)"

section \<open>Inbound packets: \<^verbatim>\<open>_packetHandler\<close>, lines 385-421\<close>

text \<open>
  \<^verbatim>\<open>clearTimeout(this._sendTimeout)\<close> (line 387) clears a timer that no line of the file
  ever sets, and is left out. The listeners of the \<^verbatim>\<open>data\<close> event are the caller's and
  are taken to return. The result is the exception that leaves the handler, if any, and
  the object as the handler left it.
\<close>

definition packetHandler :: "packet \<Rightarrow> 'b tuya \<Rightarrow> error option \<times> 'b tuya" where
  "packetHandler p s =
     (if commandByte p = 9 then (None, s)
      else if commandByte p = 7 then (None, s)
      else
        (let s1 = s\<lparr>effects := effects s @ [EmitData (payload p) (commandByte p) (sequenceN p)]\<rparr>
         in case objGet (resolvers s1) (sequenceN p) of
              Some r \<Rightarrow>
                (None, s1\<lparr>effects := effects s1 @ [CallResolver r (payload p)],
                          resolvers := objDelete (resolvers s1) (sequenceN p)\<rparr>)
            | None \<Rightarrow>
                if sequenceN p = 0 then
                  (case objectKeys (resolvers s1) of
                     [] \<Rightarrow> (Some JsTypeError, s1)
                   | k # ks \<Rightarrow>
                       (case objGet (resolvers s1) k of
                          None \<Rightarrow> (Some JsTypeError, s1)
                        | Some r \<Rightarrow>
                            (None, s1\<lparr>effects := effects s1 @ [CallResolver r (payload p)],
                                      resolvers := objDelete (resolvers s1) (sequenceN p)\<rparr>)))
                else (None, s1)))"

text \<open>The \<^verbatim>\<open>forEach\<close> of lines 308-313: the packets decoded from one delivery are handled
  in order. An exception that leaves a handler leaves the \<^verbatim>\<open>forEach\<close> too: the packets
  after it are not handled, and what was done before stays done. The result is the
  object after the delivery.\<close>

fun handleAll :: "packet list \<Rightarrow> 'b tuya \<Rightarrow> 'b tuya" where
  "handleAll [] s = s"
| "handleAll (p # ps) s =
     (case packetHandler p s of
        (None, s') \<Rightarrow> handleAll ps s'
      | (Some e, s') \<Rightarrow> s')"

text \<open>A packet that is no response to any pending request: a heartbeat reply, a
  set-acknowledgement, or a sequence number other than 0 that is not in the table.\<close>

definition noResponse :: "'b tuya \<Rightarrow> packet \<Rightarrow> bool" where
  "noResponse s p \<longleftrightarrow>
     commandByte p = 9 \<or> commandByte p = 7 \<or>
     (objGet (resolvers s) (sequenceN p) = None \<and> sequenceN p \<noteq> 0)"

text \<open>No key of the table is ahead of the counter: true of a new object, and kept by
  every operation.\<close>

definition keysBelowCounter :: "'b tuya \<Rightarrow> bool" where
  "keysBelowCounter s \<longleftrightarrow> list_all (\<lambda>k. k \<le> currentSequenceN s) (objectKeys (resolvers s))"

section \<open>Reading a property: \<^verbatim>\<open>get\<close>, lines 93-128\<close>

text \<open>\<^verbatim>\<open>options.dps\<close>: not passed, a number (an index) or a string. A number is a
  non-negative integer below \<open>2 ^ 53\<close>: these are JavaScript numbers exactly, and the
  property key of each is its decimal numeral. \<^verbatim>\<open>options.schema\<close> is compared with
  \<^verbatim>\<open>=== true\<close>: \<open>schema\<close> holds exactly for the value \<^verbatim>\<open>true\<close>.\<close>

datatype dpsOption = DpsUndefined | DpsNumber "53 word" | DpsString string

record getOptions =
  schema :: bool
  dps :: dpsOption

text \<open>The condition \<^verbatim>\<open>if (options.dps)\<close>: \<^verbatim>\<open>undefined\<close>, \<^verbatim>\<open>0\<close> and \<^verbatim>\<open>''\<close> are falsy.\<close>

fun truthy :: "dpsOption \<Rightarrow> bool" where
  "truthy DpsUndefined = False"
| "truthy (DpsNumber n) = (n \<noteq> 0)"
| "truthy (DpsString s) = (s \<noteq> [])"

text \<open>The property key a value stands for in \<^verbatim>\<open>data.dps[options.dps]\<close>: an integer
  below \<open>2 ^ 53\<close> is written in decimal.\<close>

definition digitChar :: "nat \<Rightarrow> char" where
  "digitChar n = ''0123456789'' ! n"

function decimal :: "nat \<Rightarrow> string" where
  "decimal n = (if n < 10 then [digitChar n] else decimal (n div 10) @ [digitChar (n mod 10)])"
  by pat_completeness auto
termination
  by (relation "measure id") auto

fun propertyKey :: "dpsOption \<Rightarrow> string" where
  "propertyKey DpsUndefined = ''undefined''"
| "propertyKey (DpsNumber n) = decimal (unat n)"
| "propertyKey (DpsString s) = s"

text \<open>\<^verbatim>\<open>data.dps[key]\<close>: a TypeError when \<^verbatim>\<open>data.dps\<close> is \<^verbatim>\<open>undefined\<close>; \<^verbatim>\<open>undefined\<close> when the
  map has no such key.\<close>

fun readDps :: "payload \<Rightarrow> string \<Rightarrow> error + jsval" where
  "readDps (Raw s) k = Inl JsTypeError"
| "readDps (Doc fs None) k = Inl JsTypeError"
| "readDps (Doc fs (Some m)) k = Inr (case map_of m k of None \<Rightarrow> JUndefined | Some v \<Rightarrow> v)"

datatype getResult = Whole payload | Value jsval

text \<open>The callback of lines 112-123, from the response to the value \<^verbatim>\<open>resolve\<close> gets.\<close>

definition selectResult :: "getOptions \<Rightarrow> payload \<Rightarrow> error + getResult" where
  "selectResult opts data =
     (if schema opts then Inr (Whole data)
      else if truthy (dps opts) then
        (case readDps data (propertyKey (dps opts)) of Inl e \<Rightarrow> Inl e | Inr v \<Rightarrow> Inr (Value v))
      else
        (case readDps data ''1'' of Inl e \<Rightarrow> Inl e | Inr v \<Rightarrow> Inr (Value v)))"

text \<open>
  \<^verbatim>\<open>get\<close> throws what \<^verbatim>\<open>encode\<close> throws (\<open>Inl\<close>). Otherwise it returns a promise: rejected
  at once with what \<^verbatim>\<open>_send\<close> threw (the \<^verbatim>\<open>catch\<close> of line 124), or chained to the promise
  of \<^verbatim>\<open>_send\<close> by a \<^verbatim>\<open>then\<close> with no rejection handler.
\<close>

datatype 'b getPromise = RejectedAtOnce error | Chained "'b sending"

definition get :: "'b helpers \<Rightarrow> 'b tuya \<Rightarrow> (error + 'b getPromise) \<times> 'b tuya" where
  "get H s =
     (case encode H (GetRequest (d_gwID (device s)) (d_id (device s))) of
        Inl e \<Rightarrow> (Inl e, s)
      | Inr buffer \<Rightarrow>
          (case send H buffer s of
             (Inl e, s') \<Rightarrow> (Inr (RejectedAtOnce e), s')
           | (Inr st, s') \<Rightarrow> (Inr (Chained st), s')))"

text \<open>The state of the promise \<^verbatim>\<open>get\<close> returned. It is settled only by \<^verbatim>\<open>resolve\<close> in the
  callback: when the callback throws, or \<^verbatim>\<open>_send\<close> rejects, it stays pending.\<close>

definition getOutcome :: "getOptions \<Rightarrow> 'b getPromise \<Rightarrow> 'b tuya \<Rightarrow> getResult promise" where
  "getOutcome opts g s =
     (case g of
        RejectedAtOnce e \<Rightarrow> Rejected e
      | Chained st \<Rightarrow>
          (case sendOutcome st s of
             Fulfilled data \<Rightarrow>
               (case selectResult opts data of Inr v \<Rightarrow> Fulfilled v | Inl e \<Rightarrow> Pending)
           | Pending \<Rightarrow> Pending
           | Rejected e \<Rightarrow> Pending))"

section \<open>Discovery: \<^verbatim>\<open>find\<close>, lines 507-587\<close>

text \<open>\<^verbatim>\<open>payload.gwId\<close>, \<^verbatim>\<open>payload.ip\<close>, \<^verbatim>\<open>payload.productKey\<close>, \<^verbatim>\<open>payload.version\<close>: the field
  of a document, \<^verbatim>\<open>undefined\<close> when it has none and for raw text.\<close>

fun field :: "payload \<Rightarrow> string \<Rightarrow> jsval" where
  "field (Raw s) k = JUndefined"
| "field (Doc fs d) k = (case map_of fs k of None \<Rightarrow> JUndefined | Some v \<Rightarrow> v)"

text \<open>The condition \<^verbatim>\<open>&& dataRes.payload\<close> of line 549: a document is truthy, raw text
  unless it is empty.\<close>

fun truthyPayload :: "payload \<Rightarrow> bool" where
  "truthyPayload (Raw s) = (s \<noteq> [])"
| "truthyPayload (Doc fs d) = True"

datatype findResult = FoundTrue | AllDevices "(jsval \<times> jsval) list"

text \<open>
  One call of \<^verbatim>\<open>find\<close>: the option \<^verbatim>\<open>all\<close>; whether the UDP socket \<^verbatim>\<open>listener\<close> is open
  (\<open>bound\<close>) and has its \<^verbatim>\<open>message\<close> and \<^verbatim>\<open>error\<close> handlers (\<open>listening\<close>); whether the
  timer of \<^verbatim>\<open>pTimeout\<close> is armed; the promise of line 522 (\<open>inner\<close>) and the promise
  \<^verbatim>\<open>pTimeout\<close> returned (\<open>outcome\<close>); and the exceptions that left a handler uncaught.

  \<^verbatim>\<open>pTimeout(promise, ms, fallback)\<close> is the p-timeout package, which is not part of the
  repository, modelled by its documented contract: when \<^verbatim>\<open>promise\<close> settles first, the
  returned promise settles the same way and the timer is cleared; when the timer fires
  first, the returned promise is fulfilled with what \<^verbatim>\<open>fallback\<close> returns, or rejected
  with what it throws.
\<close>

record findCall =
  f_all :: bool
  bound :: bool
  listening :: bool
  timer :: bool
  inner :: "findResult promise"
  outcome :: "findResult promise"
  uncaught :: "error list"

text \<open>\<^verbatim>\<open>resolve\<close> and \<^verbatim>\<open>reject\<close> of the inner promise, and what \<^verbatim>\<open>pTimeout\<close> does then.\<close>

definition settle :: "findResult promise \<Rightarrow> findCall \<Rightarrow> findCall" where
  "settle r c =
     (if inner c = Pending
      then c\<lparr>inner := r, timer := False,
             outcome := (if outcome c = Pending then r else outcome c)\<rparr>
      else c)"

text \<open>Lines 550-561: the discovered fields are adopted into \<^verbatim>\<open>this.device\<close>.\<close>

definition adopt :: "payload \<Rightarrow> device \<Rightarrow> device" where
  "adopt pl d =
     d\<lparr>d_ip := field pl ''ip'',
       d_id := field pl ''gwId'',
       d_gwID := field pl ''gwId'',
       d_productKey := field pl ''productKey'',
       d_version := field pl ''version''\<rparr>"

text \<open>The test of lines 547-549 on a decoded packet.\<close>

definition matches :: "bool \<Rightarrow> device \<Rightarrow> payload \<Rightarrow> bool" where
  "matches all d pl \<longleftrightarrow>
     \<not> all \<and> (d_id d = field pl ''gwId'' \<or> d_ip d = field pl ''ip'') \<and> truthyPayload pl"

text \<open>
  The \<^verbatim>\<open>message\<close> handler, lines 523-568. Its argument is what \<^verbatim>\<open>parser.parse(message)\<close>
  did: threw, or returned the decoded packets. When it threw, the \<^verbatim>\<open>catch\<close> rejects and
  the handler goes on with \<^verbatim>\<open>dataRes\<close> undefined, as it does when no packet was decoded:
  line 537 then throws a TypeError, which nothing catches.
\<close>

definition onMessage :: "error + packet list \<Rightarrow> 'b tuya \<times> findCall \<Rightarrow> 'b tuya \<times> findCall" where
  "onMessage parsed sc =
     (case sc of (s, c) \<Rightarrow>
      (case parsed of
         Inl e \<Rightarrow> (s, (settle (Rejected e) c)\<lparr>uncaught := uncaught c @ [JsTypeError]\<rparr>)
       | Inr [] \<Rightarrow> (s, c\<lparr>uncaught := uncaught c @ [JsTypeError]\<rparr>)
       | Inr (dataRes # rest) \<Rightarrow>
           (let thisID = field (payload dataRes) ''gwId'';
                thisIP = field (payload dataRes) ''ip'';
                s1 = (if \<not> list_ex (\<lambda>e. fst e = thisID \<and> snd e = thisIP) (foundDevices s)
                      then s\<lparr>foundDevices := foundDevices s @ [(thisID, thisIP)]\<rparr>
                      else s)
            in if matches (f_all c) (device s1) (payload dataRes)
               then (s1\<lparr>device := adopt (payload dataRes) (device s1)\<rparr>,
                     settle (Fulfilled FoundTrue) (c\<lparr>bound := False, listening := False\<rparr>))
               else (s1, c))))"

text \<open>The \<^verbatim>\<open>error\<close> handler, lines 570-572.\<close>

definition onError :: "error \<Rightarrow> 'b tuya \<times> findCall \<Rightarrow> 'b tuya \<times> findCall" where
  "onError e sc = (case sc of (s, c) \<Rightarrow> (s, settle (Rejected e) c))"

text \<open>The fallback of \<^verbatim>\<open>pTimeout\<close>, lines 573-586.\<close>

definition onTimeout :: "'b tuya \<times> findCall \<Rightarrow> 'b tuya \<times> findCall" where
  "onTimeout sc =
     (case sc of (s, c) \<Rightarrow>
        (s, c\<lparr>bound := False, listening := False, timer := False,
              outcome := (if outcome c \<noteq> Pending then outcome c
                          else if f_all c then Fulfilled (AllDevices (foundDevices s))
                          else Rejected FindTimedOut)\<rparr>))"

text \<open>What can happen to a call after \<^verbatim>\<open>find\<close> returned: a datagram arrives, the socket
  reports an error, the time is up (the model has no clock: the option \<^verbatim>\<open>timeout\<close> only
  says when that is). A handler that was removed is not called, a timer that was cleared
  does not fire.\<close>

datatype findEvent = Datagram "error + packet list" | ListenerError error | TimeUp

fun findStep :: "findEvent \<Rightarrow> 'b tuya \<times> findCall \<Rightarrow> 'b tuya \<times> findCall" where
  "findStep (Datagram parsed) sc = (if listening (snd sc) then onMessage parsed sc else sc)"
| "findStep (ListenerError e) sc = (if listening (snd sc) then onError e sc else sc)"
| "findStep TimeUp sc = (if timer (snd sc) then onTimeout sc else sc)"

fun findRun :: "findEvent list \<Rightarrow> 'b tuya \<times> findCall \<Rightarrow> 'b tuya \<times> findCall" where
  "findRun [] sc = sc"
| "findRun (ev # evs) sc = findRun evs (findStep ev sc)"

text \<open>\<^verbatim>\<open>find\<close> itself, lines 507-522: it returns at once when the identifier and the
  address are both known, and otherwise binds the listener and arms the timer.\<close>

definition findDevice :: "bool \<Rightarrow> 'b tuya \<Rightarrow> findCall" where
  "findDevice all s =
     (if checkIfValidString (d_id (device s)) \<and> checkIfValidString (d_ip (device s))
      then \<lparr>f_all = all, bound = False, listening = False, timer = False,
            inner = Pending, outcome = Fulfilled FoundTrue, uncaught = []\<rparr>
      else \<lparr>f_all = all, bound = True, listening = True, timer = True,
            inner = Pending, outcome = Pending, uncaught = []\<rparr>)"

text \<open>The listener and its handlers are released.\<close>

definition released :: "findCall \<Rightarrow> bool" where
  "released c \<longleftrightarrow> \<not> bound c \<and> \<not> listening c"



section \<open>Invariants of the object\<close>

text \<open>
  What every operation keeps true of an object, starting from the constructor: the keys
  of the table are distinct, in ascending order and not ahead of the sequence counter;
  every resolver in the table, and every resolver that was ever called, was created
  before \<open>nextResolver\<close>.
\<close>

fun calledBelow :: "nat \<Rightarrow> 'b effect \<Rightarrow> bool" where
  "calledBelow n (CallResolver r p) = (r < n)"
| "calledBelow n _ = True"

definition wellFormed :: "'b tuya \<Rightarrow> bool" where
  "wellFormed s \<longleftrightarrow>
     keysBelowCounter s \<and>
     sorted_wrt (<) (objectKeys (resolvers s)) \<and>
     list_all (\<lambda>e. snd e < nextResolver s) (resolvers s) \<and>
     list_all (calledBelow (nextResolver s)) (effects s)"

text \<open>The calls of resolvers among the effects.\<close>

fun isCall :: "'b effect \<Rightarrow> bool" where
  "isCall (CallResolver r p) = True"
| "isCall _ = False"



section \<open>Concrete inputs\<close>

text \<open>Helper modules that never throw; \<^verbatim>\<open>writeSequenceN\<close> puts the sequence number in front
  of the buffer.\<close>

definition demoHelpers :: "nat list helpers" where
  "demoHelpers =
     \<lparr> newMessageParser = (\<lambda>k v. None), newCipher = (\<lambda>k v. None),
       encode = (\<lambda>r. Inr []), writeSequenceN = (\<lambda>b n. Inr (n # b)) \<rparr>"

text \<open>\<^verbatim>\<open>{id: 'dev1', key: '0123456789abcdef'}\<close>\<close>

definition demoOptions :: options where
  "demoOptions =
     \<lparr> o_ip = JUndefined, o_port = JUndefined, o_id = JStr ''dev1'', o_gwID = JUndefined,
       o_key = JStr ''0123456789abcdef'', o_productKey = JUndefined,
       o_version = JUndefined \<rparr>"

text \<open>The object the constructor builds from these options, and the same object after the
  socket's \<^verbatim>\<open>connect\<close> event set \<^verbatim>\<open>_connected\<close> (line 351).\<close>

definition newDevice :: "nat list tuya" where
  "newDevice =
     \<lparr> device = makeDevice demoOptions, foundDevices = [], connected = False,
       currentSequenceN = 0, resolvers = [], nextResolver = 0, effects = [] \<rparr>"

definition connectedDevice :: "nat list tuya" where
  "connectedDevice = newDevice\<lparr>connected := True\<rparr>"

text \<open>A status reply (command 10) with the given sequence number and payload.\<close>

definition statusPacket :: "nat \<Rightarrow> payload \<Rightarrow> packet" where
  "statusPacket n pl = \<lparr>payload = pl, commandByte = 10, sequenceN = n\<rparr>"

text \<open>A heartbeat reply (command 9) with the given sequence number.\<close>

definition heartbeatReply :: "nat \<Rightarrow> packet" where
  "heartbeatReply n = \<lparr>payload = Raw [], commandByte = 9, sequenceN = n\<rparr>"

text \<open>The connected object after one \<^verbatim>\<open>_send\<close>: sequence number 1 is pending on
  resolver 0.\<close>

definition oneSent :: "nat list tuya" where
  "oneSent = snd (send demoHelpers [] connectedDevice)"

text \<open>The connected object after two calls of \<^verbatim>\<open>_send\<close>: sequence numbers 1 and 2 are
  pending on resolvers 0 and 1.\<close>

definition twoSent :: "nat list tuya" where
  "twoSent = snd (send demoHelpers [] oneSent)"

text \<open>A status document \<^verbatim>\<open>{dps: {'0': 'zero', '1': true, '2': 'white'}}\<close>.\<close>

definition threeProperties :: payload where
  "threeProperties =
     Doc [] (Some [(''0'', JStr ''zero''), (''1'', JBool True), (''2'', JStr ''white'')])"

text \<open>The connected object after the \<^verbatim>\<open>get\<close> that \<^verbatim>\<open>connect\<close> issues (line 373) was answered
  under its own sequence number 1: the table is empty again. And that object after the
  heartbeat timer fired once (lines 367-369) and the device answered the ping, sent
  under sequence number 2, with a heartbeat reply.\<close>

definition afterFirstGet :: "nat list tuya" where
  "afterFirstGet =
     snd (packetHandler (statusPacket 1 threeProperties) (snd (get demoHelpers connectedDevice)))"

definition afterHeartbeat :: "nat list tuya" where
  "afterHeartbeat =
     snd (packetHandler (heartbeatReply 2) (snd (sendPing demoHelpers afterFirstGet)))"

text \<open>A discovery broadcast announcing an identifier and an address.\<close>

definition broadcast :: "string \<Rightarrow> string \<Rightarrow> packet" where
  "broadcast i a =
     \<lparr>payload = Doc [(''gwId'', JStr i), (''ip'', JStr a)] None,
      commandByte = 0, sequenceN = 0\<rparr>"

section \<open>Lemmas about the table and the log\<close>

lemma objDelete_absent: "objGet m k = None \<Longrightarrow> objDelete m k = m"
  unfolding objGet_def objDelete_def
  by (induction m) (auto split: if_splits)

lemma objGet_objSet: "objGet (objSet m k v) k' = (if k' = k then Some v else objGet m k')"
  unfolding objGet_def
  by (induction m k v rule: objSet.induct) auto

lemma objGet_objDelete: "objGet (objDelete m k) k' = (if k' = k then None else objGet m k')"
  unfolding objGet_def objDelete_def
  by (induction m) auto

lemma set_objSet: "set (objSet m k v) \<subseteq> insert (k, v) (set m)"
  by (induction m k v rule: objSet.induct) auto

lemma keys_objSet: "set (objectKeys (objSet m k v)) = insert k (set (objectKeys m))"
  unfolding objectKeys_def
  by (induction m k v rule: objSet.induct) auto

lemma objGet_None_iff: "objGet m k = None \<longleftrightarrow> k \<notin> set (objectKeys m)"
  unfolding objGet_def objectKeys_def by (simp add: map_of_eq_None_iff)

lemma sorted_objSet:
  "sorted_wrt (<) (objectKeys m) \<Longrightarrow> sorted_wrt (<) (objectKeys (objSet m k v))"
proof (induction m k v rule: objSet.induct)
  case (1 k v)
  then show ?case by (simp add: objectKeys_def)
next
  case (2 k' v' m k v)
  have keys: "set (map fst (objSet m k v)) = insert k (set (map fst m))"
    using keys_objSet [of m k v] by (simp add: objectKeys_def)
  from 2 show ?case
    by (auto simp: objectKeys_def keys dest: subsetD [OF set_objSet])
qed

lemma sorted_objDelete:
  "sorted_wrt (<) (objectKeys m) \<Longrightarrow> sorted_wrt (<) (objectKeys (objDelete m k))"
  unfolding objectKeys_def objDelete_def
  by (induction m) auto

lemma keys_objDelete: "set (objectKeys (objDelete m k)) \<subseteq> set (objectKeys m)"
  unfolding objectKeys_def objDelete_def by auto

lemma set_objDelete: "set (objDelete m k) \<subseteq> set m"
  unfolding objDelete_def by auto

lemma firstCall_None_iff:
  "firstCall r es = None \<longleftrightarrow> (\<forall>p. CallResolver r p \<notin> set es)"
  by (induction r es rule: firstCall.induct) auto

lemma firstCall_below:
  "list_all (calledBelow n) es \<Longrightarrow> n \<le> r \<Longrightarrow> firstCall r es = None"
  by (induction r es rule: firstCall.induct) auto

lemma firstCall_append_nocall:
  "\<not> isCall e \<Longrightarrow> firstCall r (es @ [e]) = firstCall r es"
  by (induction r es rule: firstCall.induct) (cases e; auto)+

text \<open>A packet that is no response changes neither the table nor the counter, and calls
  no resolver.\<close>

lemma noResponse_step:
  assumes "noResponse s p"
  shows "resolvers (snd (packetHandler p s)) = resolvers s \<and>
         currentSequenceN (snd (packetHandler p s)) = currentSequenceN s \<and>
         firstCall r (effects (snd (packetHandler p s))) = firstCall r (effects s)"
  using assms
  by (auto simp: noResponse_def packetHandler_def Let_def firstCall_append_nocall)

lemma noResponse_returns: "noResponse s p \<Longrightarrow> fst (packetHandler p s) = None"
  by (auto simp: noResponse_def packetHandler_def Let_def)

lemma noResponse_cong: "resolvers s' = resolvers s \<Longrightarrow> noResponse s' p = noResponse s p"
  by (simp add: noResponse_def)

lemma noResponse_all:
  "list_all (noResponse s) ps \<Longrightarrow>
     resolvers (handleAll ps s) = resolvers s \<and>
     currentSequenceN (handleAll ps s) = currentSequenceN s \<and>
     firstCall r (effects (handleAll ps s)) = firstCall r (effects s)"
proof (induction ps arbitrary: s)
  case Nil
  then show ?case by simp
next
  case (Cons p ps)
  from Cons.prems have p: "noResponse s p" and rest: "list_all (noResponse s) ps"
    by simp_all
  let ?s = "snd (packetHandler p s)"
  from noResponse_step [OF p, of r]
  have eq: "resolvers ?s = resolvers s" "currentSequenceN ?s = currentSequenceN s"
    "firstCall r (effects ?s) = firstCall r (effects s)"
    by simp_all
  have "list_all (noResponse ?s) ps"
    using rest noResponse_cong [OF eq(1)] by (simp add: list_all_iff)
  from Cons.IH [OF this] eq noResponse_returns [OF p] show ?case
    by (simp add: case_prod_beta)
qed

text \<open>An attempt stores its resolver under a key the table does not have yet, so the
  entries that are there stay, and it calls no resolver.\<close>

lemma attempt_keeps_entries:
  assumes "keysBelowCounter s" and "attempt H buffer s = (a, b, s')"
  shows "(\<forall>k r. objGet (resolvers s) k = Some r \<longrightarrow> objGet (resolvers s') k = Some r) \<and>
         filter isCall (effects s') = filter isCall (effects s)"
proof -
  have "Suc (currentSequenceN s) \<notin> set (objectKeys (resolvers s))"
    using assms(1) by (auto simp: keysBelowCounter_def list_all_iff)
  then have none: "objGet (resolvers s) (Suc (currentSequenceN s)) = None"
    by (simp add: objGet_None_iff)
  show ?thesis
    using assms(2) none
    by (cases "writeSequenceN H buffer (Suc (currentSequenceN s))")
       (auto simp: attempt_def Let_def objGet_objSet)
qed

lemma runAttempt_keeps_entries:
  assumes "keysBelowCounter s"
  shows "(\<forall>k r. objGet (resolvers s) k = Some r \<longrightarrow>
            objGet (resolvers (snd (runAttempt H n buffer s))) k = Some r) \<and>
         filter isCall (effects (snd (runAttempt H n buffer s))) = filter isCall (effects s)"
proof -
  obtain a b s' where att: "attempt H buffer s = (a, b, s')"
    by (cases "attempt H buffer s") auto
  have "snd (runAttempt H n buffer s) = s'"
    using att by (cases a) (simp_all add: runAttempt_def)
  with attempt_keeps_entries [OF assms att] show ?thesis by simp
qed

lemma firstCall_append:
  "firstCall r (es @ es') = (case firstCall r es of Some p \<Rightarrow> Some p | None \<Rightarrow> firstCall r es')"
  by (induction r es rule: firstCall.induct) auto

section \<open>The invariant is established and kept\<close>

lemma calledBelow_mono: "calledBelow n e \<Longrightarrow> n \<le> n' \<Longrightarrow> calledBelow n' e"
  by (cases e) auto

lemma objGet_in_set: "objGet m k = Some r \<Longrightarrow> (k, r) \<in> set m"
  unfolding objGet_def by (rule map_of_SomeD)

lemma wellFormed_new:
  assumes "tuyaDevice H opts = Inr t"
  shows "wellFormed t"
  using assms
  by (auto simp: tuyaDevice_def Let_def wellFormed_def keysBelowCounter_def objectKeys_def
      split: if_splits option.splits)

lemma wellFormed_attempt:
  assumes "wellFormed s" and "attempt H buffer s = (a, b, s')"
  shows "wellFormed s'"
proof (cases "writeSequenceN H buffer (Suc (currentSequenceN s))")
  case (Inl e)
  then have "s' = s\<lparr>currentSequenceN := Suc (currentSequenceN s)\<rparr>"
    using assms(2) by (simp add: attempt_def Let_def)
  then show ?thesis
    using assms(1) by (auto simp: wellFormed_def keysBelowCounter_def list_all_iff)
next
  case (Inr b')
  let ?n = "Suc (currentSequenceN s)"
  let ?r = "nextResolver s"
  have s': "s' = s\<lparr>currentSequenceN := ?n,
                   effects := effects s @ [SocketWrite b'],
                   resolvers := objSet (resolvers s) ?n ?r,
                   nextResolver := Suc ?r\<rparr>"
    using assms(2) Inr by (auto simp: attempt_def Let_def)
  have keys: "keysBelowCounter s'"
    using assms(1)
    by (auto simp: s' wellFormed_def keysBelowCounter_def list_all_iff keys_objSet)
  have srt: "sorted_wrt (<) (objectKeys (resolvers s'))"
    using assms(1) by (simp add: s' wellFormed_def sorted_objSet)
  have res: "list_all (\<lambda>e. snd e < nextResolver s') (resolvers s')"
    using assms(1) set_objSet [of "resolvers s" ?n ?r]
    by (fastforce simp: s' wellFormed_def list_all_iff)
  have eff: "list_all (calledBelow (nextResolver s')) (effects s')"
    using assms(1) calledBelow_mono [of ?r _ "Suc ?r"]
    by (auto simp: s' wellFormed_def list_all_iff)
  from keys srt res eff show ?thesis by (simp add: wellFormed_def)
qed

lemma wellFormed_runAttempt:
  assumes "wellFormed s"
  shows "wellFormed (snd (runAttempt H n buffer s))"
proof -
  obtain a b s' where att: "attempt H buffer s = (a, b, s')"
    by (cases "attempt H buffer s") auto
  have "snd (runAttempt H n buffer s) = s'"
    using att by (cases a) (simp_all add: runAttempt_def)
  with wellFormed_attempt [OF assms att] show ?thesis by simp
qed

lemma wellFormed_send: "wellFormed s \<Longrightarrow> wellFormed (snd (send H buffer s))"
  using wellFormed_runAttempt [of s H 5 buffer]
  by (simp add: send_def case_prod_beta)

lemma wellFormed_retryFire: "wellFormed s \<Longrightarrow> wellFormed (snd (retryFire H st s))"
  using wellFormed_runAttempt [of s H]
  by (cases st) (simp_all add: retryFire_def)

lemma wellFormed_sendPing: "wellFormed s \<Longrightarrow> wellFormed (snd (sendPing H s))"
  using wellFormed_send [of s H]
  by (cases "encode H PingRequest") (simp_all add: sendPing_def)

lemma wellFormed_get:
  assumes "wellFormed s"
  shows "wellFormed (snd (get H s))"
proof (cases "encode H (GetRequest (d_gwID (device s)) (d_id (device s)))")
  case (Inl e)
  then show ?thesis using assms by (simp add: get_def)
next
  case (Inr b)
  obtain r s' where snd: "send H b s = (r, s')"
    by (cases "send H b s") auto
  have "snd (get H s) = s'"
    using Inr snd by (cases r) (simp_all add: get_def)
  with wellFormed_send [OF assms, of H b] snd show ?thesis by simp
qed

lemma wellFormed_delete_call:
  assumes "wellFormed s" and "objGet (resolvers s) k = Some r"
  shows "wellFormed (s\<lparr>effects := effects s @ [EmitData pl c n, CallResolver r pl'],
                       resolvers := objDelete (resolvers s) k'\<rparr>)"
proof -
  have "r < nextResolver s"
    using assms objGet_in_set [OF assms(2)] by (auto simp: wellFormed_def list_all_iff)
  then show ?thesis
    using assms(1) keys_objDelete [of "resolvers s" k'] set_objDelete [of "resolvers s" k']
    by (auto simp: wellFormed_def keysBelowCounter_def list_all_iff sorted_objDelete)
qed

lemma wellFormed_emit:
  "wellFormed s \<Longrightarrow> wellFormed (s\<lparr>effects := effects s @ [EmitData pl c n]\<rparr>)"
  by (auto simp: wellFormed_def keysBelowCounter_def list_all_iff)

lemma wellFormed_packetHandler:
  assumes "wellFormed s"
  shows "wellFormed (snd (packetHandler p s))"
proof (cases "commandByte p = 9 \<or> commandByte p = 7")
  case True
  then show ?thesis using assms by (auto simp: packetHandler_def)
next
  case False
  note emit = wellFormed_emit [OF assms, of "payload p" "commandByte p" "sequenceN p"]
  show ?thesis
  proof (cases "objGet (resolvers s) (sequenceN p)")
    case (Some r)
    then show ?thesis
      using False wellFormed_delete_call [OF assms Some, where pl = "payload p"
          and c = "commandByte p" and n = "sequenceN p" and pl' = "payload p"
          and k' = "sequenceN p"]
      by (simp add: packetHandler_def Let_def)
  next
    case None
    show ?thesis
    proof (cases "sequenceN p = 0")
      case False
      then show ?thesis using \<open>\<not> (commandByte p = 9 \<or> commandByte p = 7)\<close> None emit
        by (simp add: packetHandler_def Let_def)
    next
      case True
      show ?thesis
      proof (cases "resolvers s")
        case Nil
        then show ?thesis using False None True emit
          by (simp add: packetHandler_def Let_def objectKeys_def)
      next
        case (Cons e m)
        obtain k r where e: "e = (k, r)" by (cases e) auto
        have get: "objGet (resolvers s) k = Some r"
          by (simp add: Cons e objGet_def)
        show ?thesis
          using False None True Cons e
            wellFormed_delete_call [OF assms get, where pl = "payload p"
              and c = "commandByte p" and n = "sequenceN p" and pl' = "payload p"
              and k' = "sequenceN p"]
          by (simp add: packetHandler_def Let_def objectKeys_def objGet_def)
      qed
    qed
  qed
qed

lemma wellFormed_handleAll: "wellFormed s \<Longrightarrow> wellFormed (handleAll ps s)"
proof (induction ps arbitrary: s)
  case Nil
  then show ?case by simp
next
  case (Cons p ps)
  obtain r s' where h: "packetHandler p s = (r, s')"
    by (cases "packetHandler p s") auto
  have "wellFormed s'"
    using wellFormed_packetHandler [OF Cons.prems, of p] h by simp
  then show ?case
    using Cons.IH [of s'] h by (cases r) simp_all
qed

lemma wellFormed_keys: "wellFormed s \<Longrightarrow> keysBelowCounter s"
  by (simp add: wellFormed_def)

section \<open>Lemmas about discovery\<close>

lemma list_ex_pair: "list_ex (\<lambda>e. fst e = a \<and> snd e = b) xs \<longleftrightarrow> (a, b) \<in> set xs"
  by (induction xs) auto

lemma onMessage_found:
  "foundDevices (fst (onMessage (Inr (p # ps)) (s, c))) =
     (if (field (payload p) ''gwId'', field (payload p) ''ip'') \<in> set (foundDevices s)
      then foundDevices s
      else foundDevices s @ [(field (payload p) ''gwId'', field (payload p) ''ip'')])"
  by (simp add: onMessage_def Let_def list_ex_pair)

lemma onMessage_found_other:
  "parsed = Inl e \<or> parsed = Inr [] \<Longrightarrow>
     foundDevices (fst (onMessage parsed (s, c))) = foundDevices s"
  by (auto simp: onMessage_def)

lemma findStep_distinct:
  assumes "distinct (foundDevices (fst sc))"
  shows "distinct (foundDevices (fst (findStep ev sc)))"
proof (cases sc)
  case (Pair s c)
  show ?thesis
  proof (cases ev)
    case (Datagram parsed)
    show ?thesis
    proof (cases parsed)
      case (Inl e)
      then show ?thesis
        using assms Pair Datagram onMessage_found_other [of parsed e s c] by simp
    next
      case (Inr pkts)
      then show ?thesis
        using assms Pair Datagram onMessage_found_other [of parsed _ s c]
          onMessage_found [of _ _ s c]
        by (cases pkts) auto
    qed
  next
    case (ListenerError e)
    then show ?thesis using assms Pair by (simp add: onError_def)
  next
    case TimeUp
    then show ?thesis using assms Pair by (simp add: onTimeout_def)
  qed
qed

lemma findRun_distinct:
  "distinct (foundDevices (fst sc)) \<Longrightarrow> distinct (foundDevices (fst (findRun evs sc)))"
  by (induction evs arbitrary: sc) (simp_all add: findStep_distinct)








section \<open>Properties of the constructor\<close>

text \<open>
  Claim C6. Provided the constructors of the two helper modules return for the key and
  version they are given, the constructor of \<^verbatim>\<open>TuyaDevice\<close> throws one of its two
  configuration errors exactly when the configuration is invalid (neither the
  identifier nor the address is a non-empty string, or the key is not a string of
  length 16). For every configuration that passes both checks it returns an object whose
  \<^verbatim>\<open>device\<close> holds the options, with port 6668 and version 3.1 where none was passed, and
  the gateway identifier equal to the identifier where none was passed.
\<close>

theorem constructor_config:
  assumes "newMessageParser H (o_key opts) (orDefault (o_version opts) (JNum (31 / 10))) = None"
    and "newCipher H (o_key opts) (orDefault (o_version opts) (JNum (31 / 10))) = None"
  shows "((\<exists>e. tuyaDevice H opts = Inl e \<and> isConfigError e) \<longleftrightarrow> \<not> validConfig opts) \<and>
         (validConfig opts \<longrightarrow>
            (\<exists>t. tuyaDevice H opts = Inr t \<and> device t = makeDevice opts \<and>
                 (o_port opts = JUndefined \<longrightarrow> d_port (device t) = JNum 6668) \<and>
                 (o_version opts = JUndefined \<longrightarrow> d_version (device t) = JNum (31 / 10)) \<and>
                 (o_gwID opts = JUndefined \<longrightarrow> d_gwID (device t) = d_id (device t))))"
  using assms
  by (auto simp: tuyaDevice_def validConfig_def makeDevice_def orDefault_def Let_def)

theorem constructor_config_witness:
  "validConfig demoOptions \<and>
   (\<exists>t. tuyaDevice demoHelpers demoOptions = Inr t \<and> d_port (device t) = JNum 6668 \<and>
        d_version (device t) = JNum (31 / 10) \<and> d_gwID (device t) = JStr ''dev1'') \<and>
   \<not> validConfig (demoOptions\<lparr>o_key := JStr ''short''\<rparr>) \<and>
   tuyaDevice demoHelpers (demoOptions\<lparr>o_key := JStr ''short''\<rparr>) = Inl KeyIncorrect"
  using constructor_config [of demoHelpers demoOptions]
  by (simp add: tuyaDevice_def validConfig_def makeDevice_def orDefault_def
      demoHelpers_def demoOptions_def)

section \<open>Properties of sending\<close>

text \<open>
  Claim C4. When \<^verbatim>\<open>_connected\<close> is false, \<^verbatim>\<open>_send\<close> throws the not-connected error and
  leaves the object exactly as it was: nothing is written to the socket, the sequence
  counter is not advanced, no resolver is registered, no reconnect is attempted. \<^verbatim>\<open>get\<close>
  then returns a promise that is rejected at once with that error, the object unchanged.
\<close>

theorem send_not_connected:
  assumes "\<not> connected s"
  shows "send H buffer s = (Inl NoConnection, s) \<and>
         (\<forall>b. encode H (GetRequest (d_gwID (device s)) (d_id (device s))) = Inr b \<longrightarrow>
              get H s = (Inr (RejectedAtOnce NoConnection), s))"
  using assms by (simp add: send_def get_def)

theorem send_not_connected_witness:
  "\<not> connected newDevice \<and>
   send demoHelpers [7] newDevice = (Inl NoConnection, newDevice) \<and>
   get demoHelpers newDevice = (Inr (RejectedAtOnce NoConnection), newDevice)"
  using send_not_connected [of newDevice demoHelpers "[7]"]
  by (simp add: newDevice_def demoHelpers_def)

section \<open>Properties of the packet handler\<close>

text \<open>
  Claim C10. A packet with sequence number 0 that is neither a heartbeat reply nor a
  set-acknowledgement, arriving while the table of pending requests is empty, makes the
  handler throw a TypeError: after the \<^verbatim>\<open>data\<close> event is emitted, the fallback of line
  417 looks up the first key of an empty table and calls \<^verbatim>\<open>undefined\<close>.
\<close>

theorem fallback_empty_table:
  assumes "sequenceN p = 0" and "commandByte p \<noteq> 9" and "commandByte p \<noteq> 7"
    and "resolvers s = []"
  shows "packetHandler p s =
           (Some JsTypeError,
            s\<lparr>effects := effects s @ [EmitData (payload p) (commandByte p) (sequenceN p)]\<rparr>)"
  using assms by (simp add: packetHandler_def objGet_def objectKeys_def)

theorem fallback_empty_table_witness:
  "resolvers connectedDevice = [] \<and>
   fst (packetHandler (statusPacket 0 (Raw [])) connectedDevice) = Some JsTypeError \<and>
   effects (snd (packetHandler (statusPacket 0 (Raw [])) connectedDevice)) =
     [EmitData (Raw []) 10 0]"
  using fallback_empty_table [of "statusPacket 0 (Raw [])" connectedDevice]
  by (simp add: statusPacket_def connectedDevice_def newDevice_def)

section \<open>Sending to a device that does not answer\<close>

text \<open>
  Claim C1, evaluated on the code. On a connected object, when \<^verbatim>\<open>writeSequenceN\<close> returns,
  \<^verbatim>\<open>_send\<close> makes one attempt: it advances the counter by one, writes the stamped buffer
  and waits on the new resolver. Whatever heartbeat replies, set-acknowledgements and
  packets with unknown non-zero sequence numbers arrive afterwards, the promise it
  returned is still pending and the counter has not moved: no second attempt is made,
  and the promise is not rejected. Nothing in \<^verbatim>\<open>_send\<close> bounds the wait, so against a
  device that never answers the call does not end.
\<close>

theorem unanswered_send_stays_pending:
  assumes "connected s" and "wellFormed s"
    and "writeSequenceN H buffer (Suc (currentSequenceN s)) = Inr b"
  shows "\<exists>r s'. send H buffer s = (Inr (Awaiting r), s') \<and>
           effects s' = effects s @ [SocketWrite b] \<and>
           currentSequenceN s' = Suc (currentSequenceN s) \<and>
           (\<forall>ps. list_all (noResponse s') ps \<longrightarrow>
              sendOutcome (Awaiting r) (handleAll ps s') = Pending \<and>
              currentSequenceN (handleAll ps s') = Suc (currentSequenceN s))"
proof -
  let ?r = "nextResolver s"
  let ?s' = "snd (send H buffer s)"
  have snd: "send H buffer s = (Inr (Awaiting ?r), ?s')"
    using assms by (simp add: send_def runAttempt_def attempt_def Let_def)
  have eff: "effects ?s' = effects s @ [SocketWrite b]"
    and cnt: "currentSequenceN ?s' = Suc (currentSequenceN s)"
    using assms by (simp_all add: send_def runAttempt_def attempt_def Let_def)
  have "firstCall ?r (effects s) = None"
    using assms(2) firstCall_below [of ?r "effects s" ?r] by (simp add: wellFormed_def)
  then have fresh: "firstCall ?r (effects ?s') = None"
    by (simp add: eff firstCall_append_nocall)
  have "sendOutcome (Awaiting ?r) (handleAll ps ?s') = Pending \<and>
        currentSequenceN (handleAll ps ?s') = Suc (currentSequenceN s)"
    if "list_all (noResponse ?s') ps" for ps
    using noResponse_all [OF that, of ?r] fresh cnt by (simp add: sendOutcome_def)
  with snd eff cnt show ?thesis by blast
qed

theorem unanswered_send_stays_pending_witness:
  "connected connectedDevice \<and> wellFormed connectedDevice \<and>
   send demoHelpers [] connectedDevice = (Inr (Awaiting 0), oneSent) \<and>
   effects oneSent = [SocketWrite [1]] \<and>
   sendOutcome (Awaiting 0) (handleAll [heartbeatReply 0, heartbeatReply 1] oneSent) = Pending"
  using unanswered_send_stays_pending [of connectedDevice demoHelpers "[]" "[1]"]
  by (simp add: oneSent_def connectedDevice_def newDevice_def demoHelpers_def
      heartbeatReply_def wellFormed_def keysBelowCounter_def objectKeys_def
      send_def runAttempt_def attempt_def sendOutcome_def packetHandler_def)

section \<open>Heartbeat traffic and dispatch\<close>

text \<open>
  What does hold of the handler and of a ping. A heartbeat reply (command 9) or a
  set-acknowledgement (command 7) leaves the whole object as it was: no resolver is
  called, no event is emitted, the table is unchanged. Every other packet first emits the
  \<^verbatim>\<open>data\<close> event with its payload, command and sequence number; when the table has an
  entry under the packet's sequence number, the handler then calls that entry's resolver
  with the payload and deletes the entry. Sending a ping (\<^verbatim>\<open>_sendPing\<close>, or a retry of it)
  calls no resolver and leaves every entry that is in the table in place.
\<close>

lemma heartbeat_step_effects:
  "(commandByte p = 9 \<or> commandByte p = 7 \<longrightarrow> packetHandler p s = (None, s)) \<and>
   (commandByte p \<noteq> 9 \<and> commandByte p \<noteq> 7 \<longrightarrow>
      (\<exists>rest. effects (snd (packetHandler p s)) =
         effects s @ EmitData (payload p) (commandByte p) (sequenceN p) # rest) \<and>
      (\<forall>r. objGet (resolvers s) (sequenceN p) = Some r \<longrightarrow>
         packetHandler p s =
           (None, s\<lparr>effects := effects s @ [EmitData (payload p) (commandByte p) (sequenceN p),
                                            CallResolver r (payload p)],
                    resolvers := objDelete (resolvers s) (sequenceN p)\<rparr>) \<and>
         objGet (resolvers (snd (packetHandler p s))) (sequenceN p) = None)) \<and>
   (keysBelowCounter s \<longrightarrow>
      (\<forall>k r. objGet (resolvers s) k = Some r \<longrightarrow>
          objGet (resolvers (snd (sendPing H s))) k = Some r \<and>
          objGet (resolvers (snd (retryFire H st s))) k = Some r) \<and>
      filter isCall (effects (snd (sendPing H s))) = filter isCall (effects s) \<and>
      filter isCall (effects (snd (retryFire H st s))) = filter isCall (effects s))"
proof (intro conjI impI)
  assume "commandByte p = 9 \<or> commandByte p = 7"
  then show "packetHandler p s = (None, s)"
    by (auto simp: packetHandler_def)
next
  assume c: "commandByte p \<noteq> 9 \<and> commandByte p \<noteq> 7"
  then show "\<exists>rest. effects (snd (packetHandler p s)) =
         effects s @ EmitData (payload p) (commandByte p) (sequenceN p) # rest"
    by (auto simp: packetHandler_def Let_def split: option.splits list.splits)
  show "\<forall>r. objGet (resolvers s) (sequenceN p) = Some r \<longrightarrow>
         packetHandler p s =
           (None, s\<lparr>effects := effects s @ [EmitData (payload p) (commandByte p) (sequenceN p),
                                            CallResolver r (payload p)],
                    resolvers := objDelete (resolvers s) (sequenceN p)\<rparr>) \<and>
         objGet (resolvers (snd (packetHandler p s))) (sequenceN p) = None"
    using c by (auto simp: packetHandler_def Let_def objGet_objDelete)
next
  assume k: "keysBelowCounter s"
  have ping: "snd (sendPing H s) = s \<or> (\<exists>b. snd (sendPing H s) = snd (runAttempt H 5 b s))"
    by (cases "encode H PingRequest") (auto simp: sendPing_def send_def case_prod_beta)
  have retry: "snd (retryFire H st s) = s \<or>
      (\<exists>n b. snd (retryFire H st s) = snd (runAttempt H n b s))"
    by (cases st) (auto simp: retryFire_def)
  show "\<forall>k r. objGet (resolvers s) k = Some r \<longrightarrow>
          objGet (resolvers (snd (sendPing H s))) k = Some r \<and>
          objGet (resolvers (snd (retryFire H st s))) k = Some r"
    using ping retry runAttempt_keeps_entries [OF k] by metis
  show "filter isCall (effects (snd (sendPing H s))) = filter isCall (effects s)"
    using ping runAttempt_keeps_entries [OF k] by metis
  show "filter isCall (effects (snd (retryFire H st s))) = filter isCall (effects s)"
    using retry runAttempt_keeps_entries [OF k] by metis
qed

text \<open>
  Claim C3, evaluated on the code. The ping of \<^verbatim>\<open>_sendPing\<close> goes through \<^verbatim>\<open>_send\<close>, which
  stores a resolver for it (line 233); the heartbeat reply returns at line 391 before
  any dispatch, so that entry is never called and never deleted. After one heartbeat
  exchange the ping's entry (sequence number 2) is the first key of the table. A \<^verbatim>\<open>get\<close>
  is then sent under sequence number 3 and the device answers it with sequence number 0:
  the fallback calls the ping's resolver, and the promise of \<^verbatim>\<open>get\<close> stays pending. From
  the same object without the heartbeat exchange, the same \<^verbatim>\<open>get\<close> and the same answer
  fulfil the promise.
\<close>

theorem heartbeat_entry_takes_reply:
  "resolvers afterFirstGet = [] \<and>
   resolvers afterHeartbeat = [(2, 1)] \<and>
   get demoHelpers afterHeartbeat =
     (Inr (Chained (Awaiting 2)), snd (get demoHelpers afterHeartbeat)) \<and>
   resolvers (snd (get demoHelpers afterHeartbeat)) = [(2, 1), (3, 2)] \<and>
   effects (snd (packetHandler (statusPacket 0 threeProperties)
                   (snd (get demoHelpers afterHeartbeat)))) =
     effects (snd (get demoHelpers afterHeartbeat)) @
       [EmitData threeProperties 10 0, CallResolver 1 threeProperties] \<and>
   getOutcome \<lparr>schema = False, dps = DpsUndefined\<rparr> (Chained (Awaiting 2))
     (snd (packetHandler (statusPacket 0 threeProperties)
             (snd (get demoHelpers afterHeartbeat)))) = Pending \<and>
   get demoHelpers afterFirstGet =
     (Inr (Chained (Awaiting 1)), snd (get demoHelpers afterFirstGet)) \<and>
   getOutcome \<lparr>schema = False, dps = DpsUndefined\<rparr> (Chained (Awaiting 1))
     (snd (packetHandler (statusPacket 0 threeProperties)
             (snd (get demoHelpers afterFirstGet)))) = Fulfilled (Value (JBool True))"
  by (simp add: afterHeartbeat_def afterFirstGet_def connectedDevice_def newDevice_def
      demoHelpers_def statusPacket_def heartbeatReply_def threeProperties_def
      objectKeys_def objGet_def objDelete_def get_def send_def sendPing_def
      runAttempt_def attempt_def packetHandler_def getOutcome_def sendOutcome_def
      selectResult_def)

section \<open>The fallback for sequence number 0\<close>

text \<open>
  Claim C2, evaluated on the code. Sequence numbers 1 and 2 are pending and the device
  answers twice with sequence number 0. The first reply calls the resolver of entry 1,
  the oldest; line 419 then deletes the key 0, which the table does not have, so entry 1
  stays. The second reply therefore calls the resolver of entry 1 again: the same
  resolver fires twice, the table still holds both entries, and the request with
  sequence number 2 is still pending.
\<close>

theorem fallback_entry_stays:
  "resolvers twoSent = [(1, 0), (2, 1)] \<and>
   resolvers (snd (packetHandler (statusPacket 0 (Raw ''a'')) twoSent)) = [(1, 0), (2, 1)] \<and>
   effects (snd (packetHandler (statusPacket 0 (Raw ''a'')) twoSent)) =
     [SocketWrite [1], SocketWrite [2],
      EmitData (Raw ''a'') 10 0, CallResolver 0 (Raw ''a'')] \<and>
   resolvers (handleAll [statusPacket 0 (Raw ''a''), statusPacket 0 (Raw ''b'')] twoSent) =
     [(1, 0), (2, 1)] \<and>
   effects (handleAll [statusPacket 0 (Raw ''a''), statusPacket 0 (Raw ''b'')] twoSent) =
     [SocketWrite [1], SocketWrite [2],
      EmitData (Raw ''a'') 10 0, CallResolver 0 (Raw ''a''),
      EmitData (Raw ''b'') 10 0, CallResolver 0 (Raw ''b'')] \<and>
   sendOutcome (Awaiting 1)
     (handleAll [statusPacket 0 (Raw ''a''), statusPacket 0 (Raw ''b'')] twoSent) = Pending"
  by (simp add: twoSent_def oneSent_def connectedDevice_def newDevice_def demoHelpers_def
      statusPacket_def objectKeys_def objGet_def objDelete_def
      send_def runAttempt_def attempt_def packetHandler_def sendOutcome_def)

section \<open>What \<^verbatim>\<open>get\<close> returns\<close>

text \<open>
  What \<^verbatim>\<open>get\<close> does return. On a connected object, when \<^verbatim>\<open>encode\<close> and \<^verbatim>\<open>writeSequenceN\<close>
  return, \<^verbatim>\<open>get\<close> returns a promise; when the response with the request's sequence number
  arrives and its payload is a document with a \<^verbatim>\<open>dps\<close> map, the promise is fulfilled:
  with the whole document if \<^verbatim>\<open>options.schema\<close> is \<^verbatim>\<open>true\<close>; otherwise, if \<^verbatim>\<open>options.dps\<close>
  is truthy (passed, and neither \<^verbatim>\<open>0\<close> nor the empty string), with the value the map has
  under that key (\<^verbatim>\<open>undefined\<close> if it has none); otherwise with the value under \<^verbatim>\<open>'1'\<close>.
\<close>

lemma get_returns_selected:
  assumes "connected s" and "wellFormed s"
    and "encode H (GetRequest (d_gwID (device s)) (d_id (device s))) = Inr b0"
    and "writeSequenceN H b0 (Suc (currentSequenceN s)) = Inr b1"
    and "commandByte p \<noteq> 9" and "commandByte p \<noteq> 7"
    and "sequenceN p = Suc (currentSequenceN s)"
    and "payload p = Doc fs (Some m)"
  shows "\<exists>g s'. get H s = (Inr g, s') \<and>
           getOutcome opts g (snd (packetHandler p s')) =
             Fulfilled
               (if schema opts then Whole (payload p)
                else if truthy (dps opts)
                then Value (case map_of m (propertyKey (dps opts)) of
                              None \<Rightarrow> JUndefined | Some v \<Rightarrow> v)
                else Value (case map_of m ''1'' of None \<Rightarrow> JUndefined | Some v \<Rightarrow> v))"
proof -
  let ?r = "nextResolver s"
  let ?n = "Suc (currentSequenceN s)"
  let ?s' = "s\<lparr>currentSequenceN := ?n,
               effects := effects s @ [SocketWrite b1],
               resolvers := objSet (resolvers s) ?n ?r,
               nextResolver := Suc ?r\<rparr>"
  have g: "get H s = (Inr (Chained (Awaiting ?r)), ?s')"
    using assms(1,3,4) by (simp add: get_def send_def runAttempt_def attempt_def Let_def)
  have fresh: "firstCall ?r (effects s) = None"
    using assms(2) firstCall_below [of ?r "effects s" ?r] by (simp add: wellFormed_def)
  have eff: "effects (snd (packetHandler p ?s')) =
      effects s @ [SocketWrite b1, EmitData (payload p) (commandByte p) (sequenceN p),
                   CallResolver ?r (payload p)]"
    using assms(5-7) by (simp add: packetHandler_def Let_def objGet_objSet)
  have "firstCall ?r (effects (snd (packetHandler p ?s'))) = Some (payload p)"
    by (simp add: eff firstCall_append fresh)
  then have "sendOutcome (Awaiting ?r) (snd (packetHandler p ?s')) = Fulfilled (payload p)"
    by (simp add: sendOutcome_def)
  then have "getOutcome opts (Chained (Awaiting ?r)) (snd (packetHandler p ?s')) =
             Fulfilled
               (if schema opts then Whole (payload p)
                else if truthy (dps opts)
                then Value (case map_of m (propertyKey (dps opts)) of
                              None \<Rightarrow> JUndefined | Some v \<Rightarrow> v)
                else Value (case map_of m ''1'' of None \<Rightarrow> JUndefined | Some v \<Rightarrow> v))"
    using assms(8) by (simp add: getOutcome_def selectResult_def)
  with g show ?thesis by blast
qed

text \<open>
  Claim C9, evaluated on the code. \<^verbatim>\<open>get({dps: 0})\<close> on a connected object, answered under
  the request's sequence number with \<^verbatim>\<open>{dps: {'0': 'zero', '1': true, '2': 'white'}}\<close>:
  the option is given and the response has a property \<^verbatim>\<open>'0'\<close>, but line 116 tests the
  truthiness of \<^verbatim>\<open>options.dps\<close>, so the promise is fulfilled with the value of property
  \<^verbatim>\<open>'1'\<close>. With \<^verbatim>\<open>{dps: 2}\<close> the same response gives property \<^verbatim>\<open>'2'\<close>.
\<close>

theorem get_dps_zero_reads_one:
  "get demoHelpers connectedDevice = (Inr (Chained (Awaiting 0)), oneSent) \<and>
   getOutcome \<lparr>schema = False, dps = DpsNumber 0\<rparr> (Chained (Awaiting 0))
     (snd (packetHandler (statusPacket 1 threeProperties) oneSent)) =
     Fulfilled (Value (JBool True)) \<and>
   readDps threeProperties (propertyKey (DpsNumber 0)) = Inr (JStr ''zero'') \<and>
   getOutcome \<lparr>schema = False, dps = DpsNumber 2\<rparr> (Chained (Awaiting 0))
     (snd (packetHandler (statusPacket 1 threeProperties) oneSent)) =
     Fulfilled (Value (JStr ''white''))"
  by (simp add: oneSent_def connectedDevice_def newDevice_def demoHelpers_def
      statusPacket_def threeProperties_def objectKeys_def objGet_def objDelete_def
      get_def send_def runAttempt_def attempt_def packetHandler_def
      getOutcome_def sendOutcome_def selectResult_def digitChar_def)

section \<open>The list of discovered devices\<close>

text \<open>
  Claim C8. \<^verbatim>\<open>foundDevices\<close> never holds two entries with the same identifier and
  address: it is empty in a new object, and whatever datagrams, socket errors and
  timeouts a call of \<^verbatim>\<open>find\<close> goes through, a list without duplicates stays without
  duplicates. Two datagrams announcing the same identifier and address, handled by a call
  that is listening, add exactly one entry when the pair was not in the list and none
  when it was.
\<close>

theorem found_devices_deduplicated:
  "(tuyaDevice H opts = Inr t \<longrightarrow> distinct (foundDevices (fst (findRun evs (t, c))))) \<and>
   (distinct (foundDevices s) \<longrightarrow>
      distinct (foundDevices (fst (findRun evs (s, c)))) \<and>
      (listening c \<longrightarrow>
         foundDevices
           (fst (findRun [Datagram (Inr (p # ps)), Datagram (Inr (p # ps))] (s, c))) =
           (if (field (payload p) ''gwId'', field (payload p) ''ip'') \<in> set (foundDevices s)
            then foundDevices s
            else foundDevices s @ [(field (payload p) ''gwId'', field (payload p) ''ip'')])))"
proof (intro conjI impI)
  assume "tuyaDevice H opts = Inr t"
  then have "foundDevices t = []"
    by (auto simp: tuyaDevice_def Let_def split: if_splits option.splits)
  then show "distinct (foundDevices (fst (findRun evs (t, c))))"
    using findRun_distinct [of "(t, c)" evs] by simp
next
  assume "distinct (foundDevices s)"
  then show "distinct (foundDevices (fst (findRun evs (s, c))))"
    using findRun_distinct [of "(s, c)" evs] by simp
next
  let ?d = "Datagram (Inr (p # ps))"
  let ?e = "(field (payload p) ''gwId'', field (payload p) ''ip'')"
  assume l: "listening c"
  obtain s1 c1 where one: "onMessage (Inr (p # ps)) (s, c) = (s1, c1)"
    by (cases "onMessage (Inr (p # ps)) (s, c)") auto
  have f1: "foundDevices s1 =
      (if ?e \<in> set (foundDevices s) then foundDevices s else foundDevices s @ [?e])"
    using onMessage_found [of p ps s c] one by simp
  then have mem: "?e \<in> set (foundDevices s1)" by (simp split: if_splits)
  have "foundDevices (fst (findStep ?d (s1, c1))) = foundDevices s1"
    using onMessage_found [of p ps s1 c1] mem by simp
  then show "foundDevices (fst (findRun [?d, ?d] (s, c))) =
            (if ?e \<in> set (foundDevices s) then foundDevices s else foundDevices s @ [?e])"
    using l one f1 by simp
qed

theorem found_devices_deduplicated_witness:
  "tuyaDevice demoHelpers demoOptions = Inr newDevice \<and>
   distinct (foundDevices newDevice) \<and>
   listening (findDevice True newDevice) \<and>
   foundDevices (fst (findRun [Datagram (Inr [broadcast ''dev2'' ''10.0.0.7'']),
                              Datagram (Inr [broadcast ''dev2'' ''10.0.0.7''])]
                       (newDevice, findDevice True newDevice))) =
     [(JStr ''dev2'', JStr ''10.0.0.7'')]"
  using found_devices_deduplicated [of demoHelpers demoOptions newDevice "[]"
      "findDevice True newDevice" newDevice "broadcast ''dev2'' ''10.0.0.7''" "[]"]
  by (simp add: tuyaDevice_def newDevice_def demoHelpers_def demoOptions_def makeDevice_def
      orDefault_def findDevice_def broadcast_def onMessage_def matches_def)

section \<open>How a call of \<^verbatim>\<open>find\<close> ends\<close>




section \<open>Releasing the discovery listener\<close>

text \<open>
  Claim C5, evaluated on the code. For a call of \<^verbatim>\<open>find\<close> that binds the listener, a
  socket error and a datagram that does not decode both reject the returned promise and
  leave the socket open with its handlers attached; the timer is cleared, so a later
  timeout does not release them either. The timeout itself, when it fires, does release
  them.
\<close>

theorem rejection_keeps_listener:
  assumes "\<not> (checkIfValidString (d_id (device s)) \<and> checkIfValidString (d_ip (device s)))"
  shows "outcome (snd (findStep (ListenerError e) (s, findDevice all s))) = Rejected e \<and>
         \<not> released (snd (findStep (ListenerError e) (s, findDevice all s))) \<and>
         \<not> released (snd (findRun [ListenerError e, TimeUp] (s, findDevice all s))) \<and>
         outcome (snd (findStep (Datagram (Inl e)) (s, findDevice all s))) = Rejected e \<and>
         \<not> released (snd (findStep (Datagram (Inl e)) (s, findDevice all s))) \<and>
         \<not> released (snd (findRun [Datagram (Inl e), TimeUp] (s, findDevice all s))) \<and>
         released (snd (findStep TimeUp (s, findDevice all s)))"
  using assms
  by (auto simp: findDevice_def onError_def onMessage_def onTimeout_def settle_def
      released_def)

theorem rejection_keeps_listener_witness:
  "\<not> (checkIfValidString (d_id (device newDevice)) \<and>
      checkIfValidString (d_ip (device newDevice))) \<and>
   outcome (snd (findStep (ListenerError (SocketError 1))
                   (newDevice, findDevice False newDevice))) = Rejected (SocketError 1) \<and>
   bound (snd (findRun [ListenerError (SocketError 1), TimeUp]
                 (newDevice, findDevice False newDevice))) \<and>
   listening (snd (findRun [ListenerError (SocketError 1), TimeUp]
                     (newDevice, findDevice False newDevice)))"
  using rejection_keeps_listener [of newDevice "SocketError 1" False]
  by (simp add: newDevice_def demoOptions_def makeDevice_def orDefault_def findDevice_def
      onError_def onTimeout_def settle_def released_def)

end
